theory Spec2Isabelle
  imports Main "HOL-Library.AList"
begin

section \<open>The connector's fleet reconciler and topic router (app.js)\<close>

text \<open>
  The program is a Node.js process holding four module-level tables and reacting to
  broker messages and to callbacks of device drivers.  The embedding below passes the
  tables explicitly in a record \<open>state\<close>; every call on a collaborator (the
  broker client, a device driver, the logger) is appended to the field \<open>trace\<close> in
  the order in which the source performs it.

  Scope of the model.
  \<^item> Property keys (topics, device ids, class ids) are own properties: names that an
    object literal inherits from \<open>Object.prototype\<close>, and the key \<open>length\<close> of the
    array that serves as device table, are outside the model.
  \<^item> \<open>processConfig\<close> is an \<open>async\<close> function; it is modelled as one uninterrupted
    run, so no other message is interleaved at its \<open>await\<close>.
  \<^item> A driver is a collaborator whose code is not part of app.js: an instance carries,
    in the fields \<open>d_connect\<close> and \<open>d_disconnect\<close>, what its two calls do.
\<close>

subsection \<open>Strings: split and join\<close>

fun js_split :: "char \<Rightarrow> string \<Rightarrow> string list" where
  "js_split c [] = [[]]"
| "js_split c (x # xs) =
     (if x = c then [] # js_split c xs
      else (case js_split c xs of p # ps \<Rightarrow> (x # p) # ps | [] \<Rightarrow> [[x]]))"

fun js_join :: "string \<Rightarrow> string list \<Rightarrow> string" where
  "js_join sep [] = []"
| "js_join sep [x] = x"
| "js_join sep (x # y # ys) = x @ sep @ js_join sep (y # ys)"

text \<open>\<open>parts[i]\<close>: reading past the end of an array gives \<open>undefined\<close>.\<close>

fun js_nth :: "'a list \<Rightarrow> nat \<Rightarrow> 'a option" where
  "js_nth [] n = None"
| "js_nth (x # xs) 0 = Some x"
| "js_nth (x # xs) (Suc n) = js_nth xs n"

subsection \<open>Objects used as dictionaries\<close>

text \<open>
  An object is the list of its own enumerable properties in creation order.  Assigning to
  an existing key keeps its position, assigning to a new key appends
  (\<open>AList.update\<close>).  Enumeration (\<open>Object.keys\<close>, \<open>Object.values\<close>,
  \<open>Object.entries\<close>) visits the array-index keys first, in ascending numeric order,
  and then the other keys in creation order.
\<close>

type_synonym 'v jsobj = "(string \<times> 'v) list"

definition is_digit :: "char \<Rightarrow> bool" where
  "is_digit c = (48 \<le> (of_char c :: int) \<and> (of_char c :: int) \<le> 57)"

definition dec_value :: "string \<Rightarrow> int" where
  "dec_value s = foldl (\<lambda>n c. 10 * n + ((of_char c :: int) - 48)) 0 s"

definition array_index :: "string \<Rightarrow> int option" where
  "array_index s =
     (if s \<noteq> [] \<and> list_all is_digit s \<and> (length s = 1 \<or> hd s \<noteq> CHR ''0'')
         \<and> dec_value s < 4294967295
      then Some (dec_value s) else None)"

definition index_rank :: "string \<Rightarrow> int" where
  "index_rank k = (case array_index k of Some n \<Rightarrow> n | None \<Rightarrow> 0)"

definition js_get :: "'v jsobj \<Rightarrow> string \<Rightarrow> 'v option" where
  "js_get ob k = map_of ob k"

definition js_set :: "'v jsobj \<Rightarrow> string \<Rightarrow> 'v \<Rightarrow> 'v jsobj" where
  "js_set ob k v = AList.update k v ob"

definition js_entries :: "'v jsobj \<Rightarrow> (string \<times> 'v) list" where
  "js_entries ob =
     sort_key (\<lambda>p. index_rank (fst p)) (filter (\<lambda>p. array_index (fst p) \<noteq> None) ob)
       @ filter (\<lambda>p. array_index (fst p) = None) ob"

definition js_keys :: "'v jsobj \<Rightarrow> string list" where
  "js_keys ob = map fst (js_entries ob)"

definition js_values :: "'v jsobj \<Rightarrow> 'v list" where
  "js_values ob = map snd (js_entries ob)"

subsection \<open>Data model\<close>

datatype jsval = JUndefined | JNull | JBool bool | JNum int | JStr string

datatype exn = SyntaxError | TypeError | DriverError string

datatype 'a outcome = Returns 'a | Throws exn

text \<open>
  What \<open>await device.connect()\<close> yields: a string (the failure reason) or anything
  else.
\<close>

datatype connect_result = ConnectString string | ConnectOther

text \<open>
  One entry of \<open>data.devices\<close>.  \<open>cfg_subscribe\<close> is \<open>None\<close> when
  \<open>config.subscribe instanceof Object\<close> is false.
\<close>

record device_config =
  cfg_class :: string
  cfg_subscribe :: "string jsobj option"
  cfg_fields :: "jsval jsobj"

text \<open>
  The parsed configuration document.  A field is \<open>None\<close> when the document has no
  usable value there: \<open>data.support.includes\<close> or the iteration of
  \<open>data.devices\<close> then raises a TypeError.
\<close>

record fleet_config =
  support :: "string list option"
  devices :: "device_config list option"

text \<open>
  A driver instance.  \<open>d_disconnect\<close> says whether the call \<open>device.disconnect()\<close>
  returns or throws; a promise that it returns is never awaited by app.js, so a
  rejection of that promise counts as a return here.
\<close>

record device =
  d_id :: string
  d_name :: string
  d_manufacturer :: string
  d_model :: string
  d_version :: string
  d_connect :: "connect_result outcome"
  d_disconnect :: "unit outcome"

text \<open>
  What a driver hands to its entity-update callback: an entity object, or (as
  \<open>getEntityTopic\<close> provides for) a plain string.
\<close>

record entity =
  e_key :: "string option"
  e_name :: "string option"
  e_type :: "string option"
  e_states :: "jsval jsobj option"
  e_commands :: "string list option"

datatype entity_arg = EntityObj entity | EntityStr string

text \<open>
  The closure \<open>(state, value) => device.handle(key, state, value)\<close> stored by
  \<open>subscribe\<close>; the key is \<open>None\<close> when \<open>entity.key\<close> is undefined.
\<close>

datatype handler = Handler device "string option"

datatype payload =
    Stringify entity_arg
  | StringOf jsval
  | DiscoveryConfig device entity_arg string

datatype log_entry =
    NewConfig
  | ConnectFail device string
  | ConnectSuccess device
  | UnknownClass string
  | Published device entity_arg string
  | Subscribed device string
  | UnhandledRejection exn

datatype event =
    ClientSubscribe string
  | ClientUnsubscribe "string list"
  | ClientPublish string payload bool
  | Log log_entry
  | New string device_config
  | OnEntityUpdate device
  | OnMessage device
  | Connect device
  | Disconnect device
  | Handle device "string option" string string

record state =
  DEVICE_INSTANCES :: "device jsobj"
  HA_DISCOVERY :: "string list"
  SUBSCRIBED_TOPICS :: "handler jsobj jsobj"
  PUBLISH_TOPICS :: "string list"
  trace :: "event list"

definition BASE_TOPIC :: string where "BASE_TOPIC = ''connector''"
definition DEVICE_TOPIC :: string where "DEVICE_TOPIC = ''device''"
definition CONFIG_TOPIC :: string where "CONFIG_TOPIC = ''config''"
definition HA_BASE_TOPIC :: string where "HA_BASE_TOPIC = ''homeassistant''"

definition initial :: state where
  "initial = \<lparr>DEVICE_INSTANCES = [], HA_DISCOVERY = [], SUBSCRIBED_TOPICS = [],
     PUBLISH_TOPICS = [], trace = []\<rparr>"

definition emit :: "event \<Rightarrow> state \<Rightarrow> state" where
  "emit e s = s\<lparr>trace := trace s @ [e]\<rparr>"

definition log :: "log_entry \<Rightarrow> state \<Rightarrow> state" where
  "log l s = emit (Log l) s"

subsection \<open>getEntityTopic\<close>

text \<open>\<open>entity.key ? entity.key : entity\<close>: the key when it is truthy.\<close>

definition truthy_key :: "entity_arg \<Rightarrow> string option" where
  "truthy_key e =
     (case e of
        EntityObj r \<Rightarrow> (case e_key r of Some k \<Rightarrow> if k \<noteq> [] then Some k else None
                                        | None \<Rightarrow> None)
      | EntityStr s \<Rightarrow> None)"

text \<open>The string that \<open>join\<close> makes of an array element that is the entity itself.\<close>

definition entity_toString :: "entity_arg \<Rightarrow> string" where
  "entity_toString e = (case e of EntityObj r \<Rightarrow> ''[object Object]'' | EntityStr s \<Rightarrow> s)"

definition getEntityTopic :: "device \<Rightarrow> entity_arg \<Rightarrow> string" where
  "getEntityTopic dev e =
     js_join ''/'' [BASE_TOPIC, DEVICE_TOPIC, d_id dev,
       (case truthy_key e of Some k \<Rightarrow> k | None \<Rightarrow> entity_toString e)]"

subsection \<open>subscribe\<close>

definition handler_of :: "state \<Rightarrow> string \<Rightarrow> string \<Rightarrow> handler option" where
  "handler_of s topic ident =
     (case js_get (SUBSCRIBED_TOPICS s) topic of
        None \<Rightarrow> None
      | Some inner \<Rightarrow> js_get inner ident)"

definition subscribe :: "state \<Rightarrow> string \<Rightarrow> device \<Rightarrow> string option \<Rightarrow> bool \<times> state" where
  "subscribe s topic dev key =
     (let s1 = (if js_get (SUBSCRIBED_TOPICS s) topic = None
                then s\<lparr>SUBSCRIBED_TOPICS := js_set (SUBSCRIBED_TOPICS s) topic []\<rparr>
                else s);
          inner = (case js_get (SUBSCRIBED_TOPICS s1) topic of Some ob \<Rightarrow> ob | None \<Rightarrow> [])
      in if js_get inner (d_id dev) \<noteq> None then (False, s1)
         else
           (True,
            log (Subscribed dev topic)
              (emit (ClientSubscribe topic)
                 (s1\<lparr>SUBSCRIBED_TOPICS :=
                       js_set (SUBSCRIBED_TOPICS s1) topic
                         (js_set inner (d_id dev) (Handler dev key))\<rparr>))))"

subsection \<open>publish and the discovery announcement\<close>

text \<open>
  The topic of the announcement: \<open>[HA_BASE_TOPIC, type, id, 'config'].join('/')\<close> with
  \<open>id = device.id + '_' + entity.key\<close> and \<open>type = entity.type || 'sensor'\<close>.
\<close>

definition discovery_topic :: "device \<Rightarrow> entity_arg \<Rightarrow> string" where
  "discovery_topic dev e =
     (let key_str = (case e of
                       EntityObj r \<Rightarrow> (case e_key r of Some k \<Rightarrow> k | None \<Rightarrow> ''undefined'')
                     | EntityStr x \<Rightarrow> ''undefined'');
          ident = d_id dev @ ''_'' @ key_str;
          ty = (case e of
                  EntityObj r \<Rightarrow> (case e_type r of
                                    Some t \<Rightarrow> if t \<noteq> [] then t else ''sensor''
                                  | None \<Rightarrow> ''sensor'')
                | EntityStr x \<Rightarrow> ''sensor'')
      in js_join ''/'' [HA_BASE_TOPIC, ty, ident, ''config''])"

text \<open>
  The descriptor that \<open>publishHomeAssistantDiscovery\<close> assembles is a function of the
  device, the entity and the topic; the payload \<open>DiscoveryConfig\<close> stands for its
  serialisation.
\<close>

definition publishHomeAssistantDiscovery ::
  "state \<Rightarrow> device \<Rightarrow> entity_arg \<Rightarrow> string \<Rightarrow> state" where
  "publishHomeAssistantDiscovery s dev e topic =
     emit (ClientPublish (discovery_topic dev e) (DiscoveryConfig dev e topic) True)
       (s\<lparr>HA_DISCOVERY := HA_DISCOVERY s @ [topic]\<rparr>)"

definition entity_states :: "entity_arg \<Rightarrow> jsval jsobj option" where
  "entity_states e = (case e of EntityObj r \<Rightarrow> e_states r | EntityStr x \<Rightarrow> None)"

definition entity_commands :: "entity_arg \<Rightarrow> string list option" where
  "entity_commands e = (case e of EntityObj r \<Rightarrow> e_commands r | EntityStr x \<Rightarrow> None)"

definition entity_key :: "entity_arg \<Rightarrow> string option" where
  "entity_key e = (case e of EntityObj r \<Rightarrow> e_key r | EntityStr x \<Rightarrow> None)"

definition state_events :: "device \<Rightarrow> entity_arg \<Rightarrow> event list" where
  "state_events dev e =
     (case entity_states e of
        None \<Rightarrow> []
      | Some sts \<Rightarrow>
          map (\<lambda>p. ClientPublish (getEntityTopic dev e @ ''/'' @ fst p) (StringOf (snd p)) True)
            (js_entries sts))"

definition publish :: "state \<Rightarrow> device \<Rightarrow> entity_arg \<Rightarrow> string list \<Rightarrow> state" where
  "publish s dev e supp =
     (let topic = getEntityTopic dev e;
          s1 = (if topic \<notin> set (PUBLISH_TOPICS s)
                then (let s' = emit (ClientPublish topic (Stringify e) True)
                                 (log (Published dev e topic) s)
                      in s'\<lparr>PUBLISH_TOPICS := PUBLISH_TOPICS s' @ [topic]\<rparr>)
                else s);
          s2 = fold emit (state_events dev e) s1
      in if ''homeassistant'' \<in> set supp \<and> topic \<notin> set (HA_DISCOVERY s2)
         then publishHomeAssistantDiscovery s2 dev e topic
         else s2)"

definition processEntity :: "state \<Rightarrow> device \<Rightarrow> entity_arg \<Rightarrow> string list \<Rightarrow> state" where
  "processEntity s dev e supp =
     (let s1 = publish s dev e supp
      in case entity_commands e of
           None \<Rightarrow> s1
         | Some cmds \<Rightarrow>
             fold (\<lambda>command st.
                     snd (subscribe st (getEntityTopic dev e @ ''/'' @ command) dev (entity_key e)))
               cmds s1)"

subsection \<open>processConfig\<close>

text \<open>The \<open>forEach\<close> over the device table: a throwing call ends the iteration.\<close>

fun disconnectAll :: "device list \<Rightarrow> state \<Rightarrow> unit outcome \<times> state" where
  "disconnectAll [] s = (Returns (), s)"
| "disconnectAll (dev # ds) s =
     (let s1 = emit (Disconnect dev) s
      in case d_disconnect dev of
           Throws x \<Rightarrow> (Throws x, s1)
         | Returns u \<Rightarrow> disconnectAll ds s1)"

definition subscribeAll :: "string jsobj \<Rightarrow> device \<Rightarrow> state \<Rightarrow> state" where
  "subscribeAll ob dev s =
     fold (\<lambda>p st. snd (subscribe st (snd p) dev (Some (fst p)))) (js_entries ob) s"

text \<open>One round of the loop over \<open>data.devices\<close>.\<close>

definition processDevice ::
  "(string \<Rightarrow> (device_config \<Rightarrow> device) option) \<Rightarrow> device_config \<Rightarrow> state
     \<Rightarrow> unit outcome \<times> state" where
  "processDevice DEVICE_CLASSES config s =
     (case DEVICE_CLASSES (cfg_class config) of
        None \<Rightarrow> (Returns (), log (UnknownClass (cfg_class config)) s)
      | Some deviceClass \<Rightarrow>
          (let dev = deviceClass config;
               s1 = emit (Connect dev)
                      (emit (OnMessage dev)
                         (emit (OnEntityUpdate dev)
                            (emit (New (cfg_class config) config) s)))
           in case d_connect dev of
                Throws x \<Rightarrow> (Throws x, s1)
              | Returns (ConnectString reason) \<Rightarrow>
                  (Returns (), log (ConnectFail dev reason) s1)
              | Returns ConnectOther \<Rightarrow>
                  (let s2 = log (ConnectSuccess dev) s1;
                       s3 = (case cfg_subscribe config of
                               Some ob \<Rightarrow> subscribeAll ob dev s2
                             | None \<Rightarrow> s2)
                   in (Returns (),
                       s3\<lparr>DEVICE_INSTANCES := js_set (DEVICE_INSTANCES s3) (d_id dev) dev\<rparr>))))"

fun processDevices ::
  "(string \<Rightarrow> (device_config \<Rightarrow> device) option) \<Rightarrow> device_config list \<Rightarrow> state
     \<Rightarrow> unit outcome \<times> state" where
  "processDevices DEVICE_CLASSES [] s = (Returns (), s)"
| "processDevices DEVICE_CLASSES (config # rest) s =
     (case processDevice DEVICE_CLASSES config s of
        (Throws x, s1) \<Rightarrow> (Throws x, s1)
      | (Returns u, s1) \<Rightarrow> processDevices DEVICE_CLASSES rest s1)"

text \<open>
  The result \<open>Throws\<close> of \<open>processConfig\<close> is the rejection of the promise that the
  \<open>async\<close> function returns.
\<close>

definition processConfig ::
  "(string \<Rightarrow> (device_config \<Rightarrow> device) option) \<Rightarrow> fleet_config \<Rightarrow> state
     \<Rightarrow> unit outcome \<times> state" where
  "processConfig DEVICE_CLASSES data s =
     (case support data of
        None \<Rightarrow> (Throws TypeError, s)
      | Some supp \<Rightarrow>
          (let s1 = (if ''homeassistant'' \<in> set supp
                     then emit (ClientSubscribe (HA_BASE_TOPIC @ ''/status'')) s else s)
           in case disconnectAll (js_values (DEVICE_INSTANCES s1)) s1 of
                (Throws x, s2) \<Rightarrow> (Throws x, s2)
              | (Returns u, s2) \<Rightarrow>
                  (let s3 = emit (ClientUnsubscribe (js_keys (SUBSCRIBED_TOPICS s2))) s2;
                       s4 = s3\<lparr>SUBSCRIBED_TOPICS := [], PUBLISH_TOPICS := []\<rparr>
                   in case devices data of
                        None \<Rightarrow> (Throws TypeError, s4)
                      | Some configs \<Rightarrow> processDevices DEVICE_CLASSES configs s4)))"

subsection \<open>The message handler\<close>

definition invoke :: "handler \<Rightarrow> string \<Rightarrow> string \<Rightarrow> event" where
  "invoke h st v = (case h of Handler dev key \<Rightarrow> Handle dev key st v)"

definition dispatch_events :: "handler jsobj \<Rightarrow> string \<Rightarrow> string \<Rightarrow> event list" where
  "dispatch_events inner st v =
     concat (map (\<lambda>k. case js_get inner k of Some h \<Rightarrow> [invoke h st v] | None \<Rightarrow> [])
               (js_keys inner))"

text \<open>
  \<open>client.on('message', ...)\<close>.  \<open>JSON_parse\<close> stands for \<open>JSON.parse\<close> followed by
  the reading of the document's fields; \<open>None\<close> is the SyntaxError it throws.  The
  promise of \<open>processConfig\<close> is dropped by the handler, so its rejection reaches the
  process-wide \<open>unhandledRejection\<close> hook, which logs it.
\<close>

definition on_message ::
  "(string \<Rightarrow> (device_config \<Rightarrow> device) option) \<Rightarrow> (string \<Rightarrow> fleet_config option)
     \<Rightarrow> state \<Rightarrow> string \<Rightarrow> string \<Rightarrow> unit outcome \<times> state" where
  "on_message DEVICE_CLASSES JSON_parse s topic message =
     (let parts = js_split CHR ''/'' topic
      in if js_nth parts 0 = Some BASE_TOPIC then
           (if js_nth parts 1 = Some CONFIG_TOPIC then
              (let s1 = log NewConfig s
               in case JSON_parse message of
                    None \<Rightarrow> (Throws SyntaxError, s1)
                  | Some data \<Rightarrow>
                      (case processConfig DEVICE_CLASSES data s1 of
                         (Throws x, s2) \<Rightarrow> (Returns (), log (UnhandledRejection x) s2)
                       | (Returns u, s2) \<Rightarrow> (Returns (), s2)))
            else
              (case js_get (SUBSCRIBED_TOPICS s) topic of
                 Some inner \<Rightarrow> (Returns (), fold emit (dispatch_events inner (last parts) message) s)
               | None \<Rightarrow> (Returns (), s)))
         else if js_nth parts 0 = Some HA_BASE_TOPIC then
           (if js_nth parts 1 = Some ''status'' \<and> length parts = 2 \<and> message = ''online''
            then (Returns (), s\<lparr>HA_DISCOVERY := []\<rparr>)
            else (Returns (), s))
         else (Returns (), s))"

subsection \<open>An invariant of the subscription table, and example values\<close>

text \<open>
  \<open>subscribe\<close> stores a handler under the id of the device that the handler calls.
\<close>

definition keyed :: "state \<Rightarrow> bool" where
  "keyed s =
     list_all (\<lambda>p. list_all (\<lambda>q. case snd q of Handler dev key \<Rightarrow> d_id dev = fst q) (snd p))
       (SUBSCRIBED_TOPICS s)"

text \<open>The events that a run appended to the trace.\<close>

definition events_since :: "state \<Rightarrow> state \<Rightarrow> event list" where
  "events_since s s' = drop (length (trace s)) (trace s')"

text \<open>The publications of a serialised entity descriptor to a topic.\<close>

definition descriptor_events :: "string \<Rightarrow> event list \<Rightarrow> event list" where
  "descriptor_events topic evs =
     filter (\<lambda>ev. case ev of
                    ClientPublish t p r \<Rightarrow> (case p of Stringify e \<Rightarrow> t = topic | _ \<Rightarrow> False)
                  | _ \<Rightarrow> False) evs"

text \<open>The publications of the string form of a state value.\<close>

definition state_publications :: "event list \<Rightarrow> event list" where
  "state_publications evs =
     filter (\<lambda>ev. case ev of
                    ClientPublish t p r \<Rightarrow> (case p of StringOf v \<Rightarrow> True | _ \<Rightarrow> False)
                  | _ \<Rightarrow> False) evs"

text \<open>The announcements of discovery metadata.\<close>

definition discovery_events :: "event list \<Rightarrow> event list" where
  "discovery_events evs =
     filter (\<lambda>ev. case ev of
                    ClientPublish t p r \<Rightarrow> (case p of DiscoveryConfig d e x \<Rightarrow> True | _ \<Rightarrow> False)
                  | _ \<Rightarrow> False) evs"

text \<open>A sequence of \<open>publish\<close> calls, each with its device, entity and feature list.\<close>

definition publish_calls :: "state \<Rightarrow> (device \<times> entity_arg \<times> string list) list \<Rightarrow> state" where
  "publish_calls s calls = fold (\<lambda>c st. publish st (fst c) (fst (snd c)) (snd (snd c))) calls s"

definition lamp :: device where
  "lamp = \<lparr>d_id = ''lamp1'', d_name = ''Lamp'', d_manufacturer = ''Acme'', d_model = ''L1'',
     d_version = ''1.0'', d_connect = Returns ConnectOther, d_disconnect = Returns ()\<rparr>"

definition lamp_twin :: device where
  "lamp_twin = lamp\<lparr>d_name := ''Lamp (second instance)''\<rparr>"

definition heater :: device where
  "heater = \<lparr>d_id = ''heater7'', d_name = ''Heater'', d_manufacturer = ''Acme'', d_model = ''H2'',
     d_version = ''2.1'', d_connect = Returns (ConnectString ''timeout''),
     d_disconnect = Throws (DriverError ''socket closed'')\<rparr>"

definition set_topic :: string where "set_topic = ''connector/device/lamp1/power/set''"


definition power_entity :: entity where
  "power_entity = \<lparr>e_key = Some ''power'', e_name = Some ''Power'', e_type = Some ''switch'',
     e_states = Some [(''state'', JStr ''ON'')], e_commands = Some [''set'']\<rparr>"

text \<open>The constructions \<open>new deviceClass(config)\<close> among some events.\<close>

definition instantiations :: "event list \<Rightarrow> event list" where
  "instantiations evs = filter (\<lambda>ev. case ev of New c config \<Rightarrow> True | _ \<Rightarrow> False) evs"


text \<open>The events of the teardown at the head of \<open>processConfig\<close>, when no call throws.\<close>

definition teardown_events :: "string list \<Rightarrow> state \<Rightarrow> event list" where
  "teardown_events supp s =
     (if ''homeassistant'' \<in> set supp then [ClientSubscribe ''homeassistant/status''] else [])
       @ map Disconnect (js_values (DEVICE_INSTANCES s))
       @ [ClientUnsubscribe (js_keys (SUBSCRIBED_TOPICS s))]"

definition valve :: device where
  "valve = \<lparr>d_id = ''valve3'', d_name = ''Valve'', d_manufacturer = ''Acme'', d_model = ''V9'',
     d_version = ''0.3'', d_connect = Returns ConnectOther,
     d_disconnect = Throws (DriverError ''socket closed'')\<rparr>"

definition running :: state where
  "running = \<lparr>DEVICE_INSTANCES = [(''valve3'', valve), (''lamp1'', lamp)],
     HA_DISCOVERY = [''connector/device/lamp1/power''],
     SUBSCRIBED_TOPICS = [(set_topic, [(''lamp1'', Handler lamp (Some ''power''))])],
     PUBLISH_TOPICS = [''connector/device/lamp1/power''],
     trace = []\<rparr>"


text \<open>An example registry: three driver classes, built from the configuration entry.\<close>

definition mk_lamp :: "device_config \<Rightarrow> device" where
  "mk_lamp config =
     lamp\<lparr>d_id := (case js_get (cfg_fields config) ''id'' of
                       Some (JStr i) \<Rightarrow> i
                     | _ \<Rightarrow> ''lamp1'')\<rparr>"

definition registry :: "string \<Rightarrow> (device_config \<Rightarrow> device) option" where
  "registry c =
     (if c = ''Lamp'' then Some mk_lamp
      else if c = ''Heater'' then Some (\<lambda>config. heater)
      else if c = ''Valve'' then Some (\<lambda>config. valve)
      else None)"



definition lamp_cfg :: device_config where
  "lamp_cfg = \<lparr>cfg_class = ''Lamp'', cfg_subscribe = Some [(''power'', set_topic)],
     cfg_fields = [(''id'', JStr ''lamp1'')]\<rparr>"


section \<open>Auxiliary facts\<close>

lemma js_get_Nil [simp]: "js_get [] k = None"
  by (simp add: js_get_def)

lemma js_get_set: "js_get (js_set ob k v) k' = (if k' = k then Some v else js_get ob k')"
  by (simp add: js_get_def js_set_def update_conv')

lemma js_set_set: "js_set (js_set ob k v) k w = js_set ob k w"
  by (simp add: js_set_def)

lemma set_js_entries: "set (js_entries ob) = set ob"
  by (auto simp: js_entries_def)



lemma js_get_Some_mem: "js_get ob k = Some v \<Longrightarrow> (k, v) \<in> set ob"
  by (simp add: js_get_def map_of_SomeD)

lemma fold_emit: "fold emit evs s = s\<lparr>trace := trace s @ evs\<rparr>"
  by (induction evs arbitrary: s) (simp_all add: emit_def)

lemma js_split_nonempty: "js_split c s \<noteq> []"
  by (induction s) (auto split: list.splits)

lemma subscribe_present:
  assumes "handler_of s topic (d_id dev) = Some h"
  shows "subscribe s topic dev key = (False, s)"
  using assms by (auto simp: subscribe_def handler_of_def Let_def split: option.splits)

lemma subscribe_absent:
  assumes "handler_of s topic (d_id dev) = None"
  shows "subscribe s topic dev key =
    (True, s\<lparr>SUBSCRIBED_TOPICS :=
               js_set (SUBSCRIBED_TOPICS s) topic
                 (js_set (case js_get (SUBSCRIBED_TOPICS s) topic of Some ob \<Rightarrow> ob | None \<Rightarrow> [])
                    (d_id dev) (Handler dev key)),
             trace := trace s @ [ClientSubscribe topic, Log (Subscribed dev topic)]\<rparr>)"
proof (cases "js_get (SUBSCRIBED_TOPICS s) topic")
  case None
  then show ?thesis
    by (simp add: subscribe_def Let_def js_get_set js_set_set log_def emit_def)
next
  case (Some inner)
  with assms have "js_get inner (d_id dev) = None"
    by (simp add: handler_of_def)
  with Some show ?thesis
    by (simp add: subscribe_def Let_def js_get_set log_def emit_def)
qed



lemma set_js_set: "set (js_set ob k v) \<subseteq> insert (k, v) (set ob)"
  unfolding js_set_def by (induction ob) auto

lemma keyed_subscribe:
  assumes "keyed s"
  shows "keyed (snd (subscribe s topic dev key))"
proof (cases "handler_of s topic (d_id dev)")
  case (Some h)
  with assms show ?thesis by (simp add: subscribe_present)
next
  case None
  define P :: "string \<times> handler \<Rightarrow> bool"
    where "P = (\<lambda>q. case snd q of Handler d k \<Rightarrow> d_id d = fst q)"
  define inner
    where "inner = (case js_get (SUBSCRIBED_TOPICS s) topic of Some ob \<Rightarrow> ob | None \<Rightarrow> [])"
  define inner' where "inner' = js_set inner (d_id dev) (Handler dev key)"
  have old: "\<forall>p \<in> set (SUBSCRIBED_TOPICS s). \<forall>q \<in> set (snd p). P q"
    using assms by (simp add: keyed_def list_all_iff P_def)
  have inner: "\<forall>q \<in> set inner. P q"
  proof (cases "js_get (SUBSCRIBED_TOPICS s) topic")
    case None
    then show ?thesis by (simp add: inner_def)
  next
    case (Some ob)
    then have "(topic, ob) \<in> set (SUBSCRIBED_TOPICS s)" by (rule js_get_Some_mem)
    with old Some show ?thesis by (fastforce simp: inner_def)
  qed
  have "P (d_id dev, Handler dev key)" by (simp add: P_def)
  with inner have inner': "\<forall>q \<in> set inner'. P q"
    using set_js_set [of inner "d_id dev" "Handler dev key"] unfolding inner'_def by blast
  have tbl: "SUBSCRIBED_TOPICS (snd (subscribe s topic dev key)) =
               js_set (SUBSCRIBED_TOPICS s) topic inner'"
    by (simp add: subscribe_absent [OF None] inner_def inner'_def)
  have "\<forall>p \<in> set (js_set (SUBSCRIBED_TOPICS s) topic inner'). \<forall>q \<in> set (snd p). P q"
    using old inner' set_js_set [of "SUBSCRIBED_TOPICS s" topic inner'] by fastforce
  then show ?thesis
    by (simp add: keyed_def list_all_iff tbl P_def)
qed





lemma events_since_append: "trace s' = trace s @ evs \<Longrightarrow> events_since s s' = evs"
  by (simp add: events_since_def)

lemma events_since_trans:
  assumes "trace s1 = trace s @ a" and "trace s2 = trace s1 @ b"
  shows "events_since s s2 = a @ b"
  using assms by (simp add: events_since_def)

lemma publish_eq:
  "publish s dev e supp =
     s\<lparr>PUBLISH_TOPICS :=
         (if getEntityTopic dev e \<in> set (PUBLISH_TOPICS s) then PUBLISH_TOPICS s
          else PUBLISH_TOPICS s @ [getEntityTopic dev e]),
       HA_DISCOVERY :=
         (if ''homeassistant'' \<in> set supp \<and> getEntityTopic dev e \<notin> set (HA_DISCOVERY s)
          then HA_DISCOVERY s @ [getEntityTopic dev e] else HA_DISCOVERY s),
       trace := trace s
         @ (if getEntityTopic dev e \<in> set (PUBLISH_TOPICS s) then []
            else [Log (Published dev e (getEntityTopic dev e)),
                  ClientPublish (getEntityTopic dev e) (Stringify e) True])
         @ state_events dev e
         @ (if ''homeassistant'' \<in> set supp \<and> getEntityTopic dev e \<notin> set (HA_DISCOVERY s)
            then [ClientPublish (discovery_topic dev e)
                    (DiscoveryConfig dev e (getEntityTopic dev e)) True]
            else [])\<rparr>"
  by (simp add: publish_def Let_def fold_emit log_def emit_def publishHomeAssistantDiscovery_def)

lemma events_since_split:
  assumes "trace s1 = trace s @ a" and "trace s2 = trace s1 @ b"
  shows "events_since s s2 = events_since s s1 @ events_since s1 s2"
  using assms by (simp add: events_since_def)

lemma descriptor_events_append [simp]:
  "descriptor_events T (xs @ ys) = descriptor_events T xs @ descriptor_events T ys"
  by (simp add: descriptor_events_def)

lemma state_publications_append [simp]:
  "state_publications (xs @ ys) = state_publications xs @ state_publications ys"
  by (simp add: state_publications_def)

lemma descriptor_events_state_events [simp]: "descriptor_events T (state_events dev e) = []"
  by (auto simp: descriptor_events_def state_events_def filter_empty_conv split: option.splits)

lemma state_publications_state_events [simp]:
  "state_publications (state_events dev e) = state_events dev e"
  by (auto simp: state_publications_def state_events_def filter_id_conv split: option.splits)

lemma publish_extends: "\<exists>evs. trace (publish s dev e supp) = trace s @ evs"
  by (simp add: publish_eq)

lemma descriptor_events_publish:
  "descriptor_events T (events_since s (publish s dev e supp)) =
     (if getEntityTopic dev e = T \<and> T \<notin> set (PUBLISH_TOPICS s)
      then [ClientPublish T (Stringify e) True] else [])"
  by (simp add: publish_eq events_since_def) (auto simp: descriptor_events_def)

lemma state_publications_publish:
  "state_publications (events_since s (publish s dev e supp)) = state_events dev e"
  by (simp add: publish_eq events_since_def) (simp add: state_publications_def)

lemma PUBLISH_TOPICS_publish:
  "set (PUBLISH_TOPICS (publish s dev e supp)) = insert (getEntityTopic dev e) (set (PUBLISH_TOPICS s))"
  by (auto simp: publish_eq)

lemma publish_calls_Cons:
  "publish_calls s (c # cs) = publish_calls (publish s (fst c) (fst (snd c)) (snd (snd c))) cs"
  by (simp add: publish_calls_def)

lemma publish_calls_extends: "\<exists>evs. trace (publish_calls s calls) = trace s @ evs"
proof (induction calls arbitrary: s)
  case Nil
  show ?case by (simp add: publish_calls_def)
next
  case (Cons c cs)
  obtain a where a: "trace (publish s (fst c) (fst (snd c)) (snd (snd c))) = trace s @ a"
    using publish_extends by blast
  obtain b where "trace (publish_calls (publish s (fst c) (fst (snd c)) (snd (snd c))) cs)
      = trace (publish s (fst c) (fst (snd c)) (snd (snd c))) @ b"
    using Cons.IH by blast
  with a show ?case by (simp add: publish_calls_Cons)
qed

lemma events_since_publish_calls_Cons:
  "events_since s (publish_calls s (c # cs)) =
     events_since s (publish s (fst c) (fst (snd c)) (snd (snd c)))
       @ events_since (publish s (fst c) (fst (snd c)) (snd (snd c)))
           (publish_calls (publish s (fst c) (fst (snd c)) (snd (snd c))) cs)"
proof -
  obtain a where a: "trace (publish s (fst c) (fst (snd c)) (snd (snd c))) = trace s @ a"
    using publish_extends by blast
  obtain b where b: "trace (publish_calls (publish s (fst c) (fst (snd c)) (snd (snd c))) cs)
      = trace (publish s (fst c) (fst (snd c)) (snd (snd c))) @ b"
    using publish_calls_extends by blast
  show ?thesis
    unfolding publish_calls_Cons by (rule events_since_split [OF a b])
qed

lemma descriptor_count_calls:
  "length (descriptor_events T (events_since s (publish_calls s calls))) =
     (if T \<notin> set (PUBLISH_TOPICS s) \<and> T \<in> (\<lambda>c. getEntityTopic (fst c) (fst (snd c))) ` set calls
      then 1 else 0)"
proof (induction calls arbitrary: s)
  case Nil
  show ?case by (simp add: publish_calls_def events_since_def descriptor_events_def)
next
  case (Cons c cs)
  show ?case
    unfolding events_since_publish_calls_Cons descriptor_events_append length_append
      Cons.IH descriptor_events_publish PUBLISH_TOPICS_publish
    by auto
qed

lemma state_publications_calls:
  "state_publications (events_since s (publish_calls s calls)) =
     concat (map (\<lambda>c. state_events (fst c) (fst (snd c))) calls)"
proof (induction calls arbitrary: s)
  case Nil
  show ?case by (simp add: publish_calls_def events_since_def state_publications_def)
next
  case (Cons c cs)
  show ?case
    unfolding events_since_publish_calls_Cons state_publications_append
      Cons.IH state_publications_publish
    by simp
qed

lemma state_events_mem:
  assumes "entity_states e = Some sts" and "(k, v) \<in> set sts"
  shows "ClientPublish (getEntityTopic dev e @ ''/'' @ k) (StringOf v) True \<in> set (state_events dev e)"
  using assms by (force simp: state_events_def set_js_entries)

lemma state_events_in_publish:
  "set (state_events dev e) \<subseteq> set (events_since s (publish s dev e supp))"
  by (auto simp: publish_eq events_since_def)




lemma instantiations_teardown [simp]: "instantiations (teardown_events supp s) = []"
  by (simp add: teardown_events_def instantiations_def filter_empty_conv)


lemma subscribe_frame:
  "DEVICE_INSTANCES (snd (subscribe s t dev k)) = DEVICE_INSTANCES s \<and>
   HA_DISCOVERY (snd (subscribe s t dev k)) = HA_DISCOVERY s \<and>
   PUBLISH_TOPICS (snd (subscribe s t dev k)) = PUBLISH_TOPICS s \<and>
   (\<exists>evs. trace (snd (subscribe s t dev k)) = trace s @ evs \<and>
          (\<forall>ev \<in> set evs. \<exists>x. ev = ClientSubscribe x \<or> ev = Log (Subscribed dev x)))"
proof (cases "handler_of s t (d_id dev)")
  case None
  then show ?thesis by (simp add: subscribe_absent)
next
  case (Some h)
  then show ?thesis by (simp add: subscribe_present)
qed

lemma fold_subscribe_frame:
  "DEVICE_INSTANCES (fold (\<lambda>p st. snd (subscribe st (f p) dev (g p))) xs s) = DEVICE_INSTANCES s \<and>
   HA_DISCOVERY (fold (\<lambda>p st. snd (subscribe st (f p) dev (g p))) xs s) = HA_DISCOVERY s \<and>
   PUBLISH_TOPICS (fold (\<lambda>p st. snd (subscribe st (f p) dev (g p))) xs s) = PUBLISH_TOPICS s \<and>
   (\<exists>evs. trace (fold (\<lambda>p st. snd (subscribe st (f p) dev (g p))) xs s) = trace s @ evs \<and>
          (\<forall>ev \<in> set evs. \<exists>x. ev = ClientSubscribe x \<or> ev = Log (Subscribed dev x)))"
proof (induction xs arbitrary: s)
  case Nil
  show ?case by simp
next
  case (Cons p ps)
  let ?s1 = "snd (subscribe s (f p) dev (g p))"
  obtain a where a: "trace ?s1 = trace s @ a"
    "\<forall>ev \<in> set a. \<exists>x. ev = ClientSubscribe x \<or> ev = Log (Subscribed dev x)"
    using subscribe_frame [of s "f p" dev "g p"] by blast
  obtain b where b: "trace (fold (\<lambda>p st. snd (subscribe st (f p) dev (g p))) ps ?s1) = trace ?s1 @ b"
    "\<forall>ev \<in> set b. \<exists>x. ev = ClientSubscribe x \<or> ev = Log (Subscribed dev x)"
    using Cons.IH [of ?s1] by blast
  have "trace (fold (\<lambda>p st. snd (subscribe st (f p) dev (g p))) (p # ps) s) = trace s @ (a @ b)"
    using a(1) b(1) by simp
  moreover have "\<forall>ev \<in> set (a @ b). \<exists>x. ev = ClientSubscribe x \<or> ev = Log (Subscribed dev x)"
    using a(2) b(2) by auto
  ultimately have "\<exists>evs. trace (fold (\<lambda>p st. snd (subscribe st (f p) dev (g p))) (p # ps) s)
        = trace s @ evs \<and>
      (\<forall>ev \<in> set evs. \<exists>x. ev = ClientSubscribe x \<or> ev = Log (Subscribed dev x))"
    by blast
  then show ?case
    using Cons.IH [of ?s1] subscribe_frame [of s "f p" dev "g p"] by simp
qed

lemma subscribeAll_frame:
  "DEVICE_INSTANCES (subscribeAll ob dev s) = DEVICE_INSTANCES s \<and>
   HA_DISCOVERY (subscribeAll ob dev s) = HA_DISCOVERY s \<and>
   PUBLISH_TOPICS (subscribeAll ob dev s) = PUBLISH_TOPICS s \<and>
   (\<exists>evs. trace (subscribeAll ob dev s) = trace s @ evs \<and>
          (\<forall>ev \<in> set evs. \<exists>x. ev = ClientSubscribe x \<or> ev = Log (Subscribed dev x)))"
  unfolding subscribeAll_def by (rule fold_subscribe_frame)

lemma processDevice_unknown:
  assumes "DC (cfg_class config) = None"
  shows "processDevice DC config s
           = (Returns (), s\<lparr>trace := trace s @ [Log (UnknownClass (cfg_class config))]\<rparr>)"
  using assms by (simp add: processDevice_def log_def emit_def)

lemma processDevice_fail:
  assumes "DC (cfg_class config) = Some mk" and "d_connect (mk config) = Returns (ConnectString reason)"
  shows "processDevice DC config s
           = (Returns (),
              s\<lparr>trace := trace s @ [New (cfg_class config) config, OnEntityUpdate (mk config),
                   OnMessage (mk config), Connect (mk config),
                   Log (ConnectFail (mk config) reason)]\<rparr>)"
  using assms by (simp add: processDevice_def log_def emit_def Let_def)

lemma processDevice_throw:
  assumes "DC (cfg_class config) = Some mk" and "d_connect (mk config) = Throws x"
  shows "processDevice DC config s
           = (Throws x,
              s\<lparr>trace := trace s @ [New (cfg_class config) config, OnEntityUpdate (mk config),
                   OnMessage (mk config), Connect (mk config)]\<rparr>)"
  using assms by (simp add: processDevice_def log_def emit_def Let_def)

lemma processDevice_success:
  assumes "DC (cfg_class config) = Some mk" and "d_connect (mk config) = Returns ConnectOther"
  shows "processDevice DC config s
           = (Returns (),
              (let s2 = s\<lparr>trace := trace s @ [New (cfg_class config) config,
                            OnEntityUpdate (mk config), OnMessage (mk config), Connect (mk config),
                            Log (ConnectSuccess (mk config))]\<rparr>;
                   s3 = (case cfg_subscribe config of
                           Some ob \<Rightarrow> subscribeAll ob (mk config) s2
                         | None \<Rightarrow> s2)
               in s3\<lparr>DEVICE_INSTANCES :=
                       js_set (DEVICE_INSTANCES s3) (d_id (mk config)) (mk config)\<rparr>))"
  using assms by (simp add: processDevice_def log_def emit_def Let_def)








lemma js_join_Cons_Cons: "js_join sep ((x # p) # ps) = x # js_join sep (p # ps)"
  by (cases ps) simp_all

lemma js_join_split: "js_join [c] (js_split c s) = s"
proof (induction s)
  case Nil
  show ?case by simp
next
  case (Cons x xs)
  obtain p ps where ps: "js_split c xs = p # ps"
    using js_split_nonempty [of c xs] by (cases "js_split c xs") auto
  show ?case
  proof (cases "x = c")
    case True
    with Cons ps show ?thesis by simp
  next
    case False
    with Cons ps show ?thesis by (simp add: js_join_Cons_Cons)
  qed
qed

lemma status_topic:
  assumes "js_nth (js_split CHR ''/'' topic) 0 = Some HA_BASE_TOPIC"
    and "js_nth (js_split CHR ''/'' topic) 1 = Some ''status''"
    and "length (js_split CHR ''/'' topic) = 2"
  shows "topic = ''homeassistant/status''"
proof -
  obtain a b where ab: "js_split CHR ''/'' topic = [a, b]"
    using assms(3) by (auto simp: length_Suc_conv numeral_2_eq_2)
  with assms(1,2) have "js_split CHR ''/'' topic = [''homeassistant'', ''status'']"
    by (simp add: HA_BASE_TOPIC_def)
  then have "js_join ''/'' (js_split CHR ''/'' topic) = ''homeassistant/status''"
    by simp
  then show ?thesis by (simp add: js_join_split)
qed

lemma disconnectAll_state: "\<exists>evs. snd (disconnectAll ds s) = s\<lparr>trace := trace s @ evs\<rparr>"
proof (induction ds arbitrary: s)
  case Nil
  show ?case by (rule exI [of _ "[]"]) simp
next
  case (Cons d ds)
  show ?case
  proof (cases "d_disconnect d")
    case (Throws x)
    then have "snd (disconnectAll (d # ds) s) = s\<lparr>trace := trace s @ [Disconnect d]\<rparr>"
      by (simp add: emit_def)
    then show ?thesis by blast
  next
    case (Returns u)
    obtain evs where "snd (disconnectAll ds (emit (Disconnect d) s))
        = emit (Disconnect d) s\<lparr>trace := trace (emit (Disconnect d) s) @ evs\<rparr>"
      using Cons.IH by blast
    then have "snd (disconnectAll (d # ds) s) = s\<lparr>trace := trace s @ (Disconnect d # evs)\<rparr>"
      using Returns by (simp add: emit_def)
    then show ?thesis by blast
  qed
qed

lemma processDevice_HA:
  "HA_DISCOVERY (snd (processDevice DC config s)) = HA_DISCOVERY s"
proof (cases "DC (cfg_class config)")
  case None
  then show ?thesis by (simp add: processDevice_unknown)
next
  case (Some mk)
  show ?thesis
  proof (cases "d_connect (mk config)")
    case (Throws x)
    with Some show ?thesis by (simp add: processDevice_throw)
  next
    case (Returns r)
    show ?thesis
    proof (cases r)
      case (ConnectString reason)
      with Some Returns show ?thesis by (simp add: processDevice_fail)
    next
      case ConnectOther
      with Some Returns show ?thesis
        by (simp add: processDevice_success Let_def subscribeAll_frame split: option.splits)
    qed
  qed
qed

lemma processDevices_HA:
  "HA_DISCOVERY (snd (processDevices DC configs s)) = HA_DISCOVERY s"
proof (induction configs arbitrary: s)
  case Nil
  show ?case by simp
next
  case (Cons c cs)
  obtain r s1 where s1: "processDevice DC c s = (r, s1)"
    by (cases "processDevice DC c s")
  then have h: "HA_DISCOVERY s1 = HA_DISCOVERY s"
    using processDevice_HA [of DC c s] by simp
  show ?case
  proof (cases r)
    case (Throws x)
    with s1 h show ?thesis by simp
  next
    case (Returns u)
    with s1 h Cons.IH [of s1] show ?thesis by simp
  qed
qed

lemma processConfig_HA:
  "HA_DISCOVERY (snd (processConfig DC data s)) = HA_DISCOVERY s"
proof (cases "support data")
  case None
  then show ?thesis by (simp add: processConfig_def)
next
  case (Some supp)
  define s1 where "s1 = (if ''homeassistant'' \<in> set supp
      then emit (ClientSubscribe (HA_BASE_TOPIC @ ''/status'')) s else s)"
  have h1: "HA_DISCOVERY s1 = HA_DISCOVERY s"
    by (simp add: s1_def emit_def)
  obtain r s2 where s2: "disconnectAll (js_values (DEVICE_INSTANCES s1)) s1 = (r, s2)"
    by (cases "disconnectAll (js_values (DEVICE_INSTANCES s1)) s1")
  obtain evs where "s2 = s1\<lparr>trace := trace s1 @ evs\<rparr>"
    using disconnectAll_state [of "js_values (DEVICE_INSTANCES s1)" s1] s2 by auto
  then have h2: "HA_DISCOVERY s2 = HA_DISCOVERY s"
    using h1 by simp
  show ?thesis
  proof (cases r)
    case (Throws x)
    with Some s2 h2 show ?thesis
      by (simp add: processConfig_def Let_def s1_def [symmetric])
  next
    case (Returns u)
    with Some s2 h2 show ?thesis
      by (simp add: processConfig_def Let_def s1_def [symmetric] emit_def processDevices_HA
          split: option.splits)
  qed
qed

lemma on_message_HA:
  assumes "\<not> (topic = ''homeassistant/status'' \<and> message = ''online'')"
  shows "HA_DISCOVERY (snd (on_message DC JSON_parse s topic message)) = HA_DISCOVERY s"
proof (cases "js_nth (js_split CHR ''/'' topic) 0 = Some BASE_TOPIC")
  case True
  show ?thesis
  proof (cases "js_nth (js_split CHR ''/'' topic) 1 = Some CONFIG_TOPIC")
    case cfg: True
    show ?thesis
    proof (cases "JSON_parse message")
      case None
      with True cfg show ?thesis
        by (simp add: on_message_def Let_def log_def emit_def)
    next
      case (Some data)
      obtain r s2 where s2: "processConfig DC data (log NewConfig s) = (r, s2)"
        by (cases "processConfig DC data (log NewConfig s)")
      then have "HA_DISCOVERY s2 = HA_DISCOVERY s"
        using processConfig_HA [of DC data "log NewConfig s"] by (simp add: log_def emit_def)
      with True cfg Some s2 show ?thesis
        by (cases r) (simp_all add: on_message_def Let_def log_def emit_def)
    qed
  next
    case False
    with True show ?thesis
      by (simp add: on_message_def Let_def fold_emit split: option.splits)
  qed
next
  case False
  show ?thesis
  proof (cases "js_nth (js_split CHR ''/'' topic) 0 = Some HA_BASE_TOPIC \<and>
      js_nth (js_split CHR ''/'' topic) 1 = Some ''status'' \<and>
      length (js_split CHR ''/'' topic) = 2 \<and> message = ''online''")
    case True
    then have "topic = ''homeassistant/status''" by (simp add: status_topic)
    with True assms show ?thesis by simp
  next
    case no: False
    with False show ?thesis
      by (auto simp: on_message_def Let_def)
  qed
qed

lemma on_message_online:
  "on_message DC JSON_parse s ''homeassistant/status'' ''online''
     = (Returns (), s\<lparr>HA_DISCOVERY := []\<rparr>)"
  by (simp add: on_message_def Let_def BASE_TOPIC_def HA_BASE_TOPIC_def)

lemma processEntity_HA:
  "\<exists>xs. HA_DISCOVERY (processEntity s dev e supp) = HA_DISCOVERY s @ xs"
proof -
  have p: "\<exists>xs. HA_DISCOVERY (publish s dev e supp) = HA_DISCOVERY s @ xs"
    by (simp add: publish_eq)
  show ?thesis
  proof (cases "entity_commands e")
    case None
    with p show ?thesis by (simp add: processEntity_def Let_def)
  next
    case (Some cmds)
    have "HA_DISCOVERY (fold (\<lambda>command st.
              snd (subscribe st (getEntityTopic dev e @ ''/'' @ command) dev (entity_key e)))
            cmds (publish s dev e supp)) = HA_DISCOVERY (publish s dev e supp)"
      using fold_subscribe_frame [of "\<lambda>command. getEntityTopic dev e @ ''/'' @ command" dev
          "\<lambda>command. entity_key e" cmds "publish s dev e supp"]
      by simp
    with p Some show ?thesis by (simp add: processEntity_def Let_def)
  qed
qed

lemma discovery_events_publish:
  "discovery_events (events_since s (publish s dev e supp)) =
     (if ''homeassistant'' \<in> set supp \<and> getEntityTopic dev e \<notin> set (HA_DISCOVERY s)
      then [ClientPublish (discovery_topic dev e)
              (DiscoveryConfig dev e (getEntityTopic dev e)) True]
      else [])"
proof -
  have "discovery_events (state_events dev e) = []"
    by (auto simp: discovery_events_def state_events_def filter_empty_conv split: option.splits)
  then show ?thesis
    by (simp add: publish_eq events_since_def discovery_events_def)
qed





lemma handler_of_trace [simp]: "handler_of (s\<lparr>trace := x\<rparr>) t i = handler_of s t i"
  by (simp add: handler_of_def)

lemma handler_of_devices [simp]: "handler_of (s\<lparr>DEVICE_INSTANCES := x\<rparr>) t i = handler_of s t i"
  by (simp add: handler_of_def)


lemma processDevice_success_state:
  assumes "DC (cfg_class config) = Some mk" and "d_connect (mk config) = Returns ConnectOther"
  shows "fst (processDevice DC config s) = Returns () \<and>
    DEVICE_INSTANCES (snd (processDevice DC config s))
      = js_set (DEVICE_INSTANCES s) (d_id (mk config)) (mk config) \<and>
    (\<forall>t i. handler_of (snd (processDevice DC config s)) t i =
       (case cfg_subscribe config of
          None \<Rightarrow> handler_of s t i
        | Some ob \<Rightarrow>
            handler_of (fold (\<lambda>p st. snd (subscribe st (snd p) (mk config) (Some (fst p))))
                          (js_entries ob)
                          (s\<lparr>trace := trace s @ [New (cfg_class config) config,
                               OnEntityUpdate (mk config), OnMessage (mk config),
                               Connect (mk config), Log (ConnectSuccess (mk config))]\<rparr>)) t i))"
  using assms
  by (simp add: processDevice_success Let_def subscribeAll_frame split: option.splits)
     (simp add: subscribeAll_def)


lemma instantiations_Disconnect [simp]: "instantiations (map Disconnect ds) = []"
  by (simp add: instantiations_def filter_empty_conv)



text \<open>
  The invariant \<open>keyed\<close> holds at start and is kept by every entry point: the message
  handler and the entity-update callback.
\<close>

lemma keyed_initial: "keyed initial"
  by (simp add: keyed_def initial_def)

lemma keyed_cong: "SUBSCRIBED_TOPICS s' = SUBSCRIBED_TOPICS s \<Longrightarrow> keyed s' = keyed s"
  by (simp add: keyed_def)

lemma keyed_fold_subscribe:
  assumes "keyed s"
  shows "keyed (fold (\<lambda>p st. snd (subscribe st (f p) dev (g p))) xs s)"
  using assms by (induction xs arbitrary: s) (simp_all add: keyed_subscribe)

lemma keyed_publish: "keyed (publish s dev e supp) = keyed s"
  by (rule keyed_cong) (simp add: publish_eq)

lemma keyed_processEntity:
  assumes "keyed s"
  shows "keyed (processEntity s dev e supp)"
  using assms
  by (simp add: processEntity_def Let_def keyed_publish keyed_fold_subscribe split: option.splits)

lemma keyed_processDevice:
  assumes "keyed s"
  shows "keyed (snd (processDevice DC config s))"
proof -
  have e: "keyed (emit ev st) = keyed st" for ev st
    by (rule keyed_cong) (simp add: emit_def)
  have d: "keyed (st\<lparr>DEVICE_INSTANCES := x\<rparr>) = keyed st" for st x
    by (rule keyed_cong) simp
  show ?thesis
    using assms
    by (simp add: processDevice_def Let_def log_def e d subscribeAll_def keyed_fold_subscribe
        split: option.splits outcome.splits connect_result.splits)
qed

lemma keyed_processDevices:
  assumes "keyed s"
  shows "keyed (snd (processDevices DC configs s))"
  using assms
proof (induction configs arbitrary: s)
  case Nil
  then show ?case by simp
next
  case (Cons c cs)
  obtain r s1 where s1: "processDevice DC c s = (r, s1)"
    by (cases "processDevice DC c s")
  then have k: "keyed s1"
    using keyed_processDevice [OF Cons.prems, of DC c] by simp
  show ?case
  proof (cases r)
    case (Throws x)
    with s1 k show ?thesis by simp
  next
    case (Returns u)
    with s1 Cons.IH [OF k] show ?thesis by simp
  qed
qed

lemma keyed_processConfig:
  assumes "keyed s"
  shows "keyed (snd (processConfig DC data s))"
proof (cases "support data")
  case None
  with assms show ?thesis by (simp add: processConfig_def)
next
  case (Some supp)
  define s1 where "s1 = (if ''homeassistant'' \<in> set supp
      then emit (ClientSubscribe (HA_BASE_TOPIC @ ''/status'')) s else s)"
  have k1: "keyed s1"
    using assms by (simp add: s1_def emit_def keyed_def)
  obtain r s2 where s2: "disconnectAll (js_values (DEVICE_INSTANCES s1)) s1 = (r, s2)"
    by (cases "disconnectAll (js_values (DEVICE_INSTANCES s1)) s1")
  obtain evs where "s2 = s1\<lparr>trace := trace s1 @ evs\<rparr>"
    using disconnectAll_state [of "js_values (DEVICE_INSTANCES s1)" s1] s2 by auto
  then have k2: "keyed s2"
    using k1 by (simp add: keyed_def)
  have k0: "keyed (emit ev s2\<lparr>SUBSCRIBED_TOPICS := [], PUBLISH_TOPICS := []\<rparr>)" for ev
    by (simp add: keyed_def)
  show ?thesis
  proof (cases r)
    case (Throws x)
    with Some s2 k2 show ?thesis
      by (simp add: processConfig_def Let_def s1_def [symmetric])
  next
    case (Returns u)
    with Some s2 show ?thesis
      by (simp add: processConfig_def Let_def s1_def [symmetric] k0 keyed_processDevices
          split: option.splits)
  qed
qed

lemma keyed_on_message:
  assumes "keyed s"
  shows "keyed (snd (on_message DC JSON_parse s topic message))"
proof -
  have l: "keyed (log x st) = keyed st" for x st
    by (rule keyed_cong) (simp add: log_def emit_def)
  have f: "keyed (fold emit evs st) = keyed st" for evs st
    by (rule keyed_cong) (simp add: fold_emit)
  have h: "keyed (st\<lparr>HA_DISCOVERY := x\<rparr>) = keyed st" for st x
    by (rule keyed_cong) simp
  have c: "keyed (snd (processConfig DC data (log NewConfig s)))" for data
    using assms by (simp add: keyed_processConfig l)
  have c': "keyed s2" if "processConfig DC data (log NewConfig s) = (r, s2)" for data r s2
    using c [of data] that by simp
  show ?thesis
    using assms
    by (auto simp: on_message_def Let_def l f h dest: c'
        split: option.splits outcome.splits prod.splits)
qed

text \<open>
  \<open>processConfig\<close> never removes a key of the device table: an instance stays there
  until an instance with the same id takes its place.
\<close>

lemma processDevice_device_keys:
  "fst ` set (DEVICE_INSTANCES s) \<subseteq> fst ` set (DEVICE_INSTANCES (snd (processDevice DC config s)))"
proof (cases "DC (cfg_class config)")
  case None
  then show ?thesis by (simp add: processDevice_unknown)
next
  case (Some mk)
  show ?thesis
  proof (cases "d_connect (mk config)")
    case (Throws x)
    with Some show ?thesis by (simp add: processDevice_throw)
  next
    case (Returns r)
    show ?thesis
    proof (cases r)
      case (ConnectString reason)
      with Some Returns show ?thesis by (simp add: processDevice_fail)
    next
      case ConnectOther
      with Some Returns have "DEVICE_INSTANCES (snd (processDevice DC config s))
          = js_set (DEVICE_INSTANCES s) (d_id (mk config)) (mk config)"
        using processDevice_success_state [of DC config mk s] by simp
      then show ?thesis
        by (auto simp: js_set_def dom_update)
    qed
  qed
qed

lemma processDevices_device_keys:
  "fst ` set (DEVICE_INSTANCES s) \<subseteq> fst ` set (DEVICE_INSTANCES (snd (processDevices DC configs s)))"
proof (induction configs arbitrary: s)
  case Nil
  show ?case by simp
next
  case (Cons c cs)
  obtain r s1 where s1: "processDevice DC c s = (r, s1)"
    by (cases "processDevice DC c s")
  then have k: "fst ` set (DEVICE_INSTANCES s) \<subseteq> fst ` set (DEVICE_INSTANCES s1)"
    using processDevice_device_keys [of s DC c] by simp
  show ?case
  proof (cases r)
    case (Throws x)
    with s1 k show ?thesis by simp
  next
    case (Returns u)
    with s1 k Cons.IH [of s1] show ?thesis by auto
  qed
qed

lemma processConfig_device_keys:
  "fst ` set (DEVICE_INSTANCES s) \<subseteq> fst ` set (DEVICE_INSTANCES (snd (processConfig DC data s)))"
proof (cases "support data")
  case None
  then show ?thesis by (simp add: processConfig_def)
next
  case (Some supp)
  define s1 where "s1 = (if ''homeassistant'' \<in> set supp
      then emit (ClientSubscribe (HA_BASE_TOPIC @ ''/status'')) s else s)"
  have d1: "DEVICE_INSTANCES s1 = DEVICE_INSTANCES s"
    by (simp add: s1_def emit_def)
  obtain r s2 where s2: "disconnectAll (js_values (DEVICE_INSTANCES s1)) s1 = (r, s2)"
    by (cases "disconnectAll (js_values (DEVICE_INSTANCES s1)) s1")
  obtain evs where "s2 = s1\<lparr>trace := trace s1 @ evs\<rparr>"
    using disconnectAll_state [of "js_values (DEVICE_INSTANCES s1)" s1] s2 by auto
  then have d2: "DEVICE_INSTANCES s2 = DEVICE_INSTANCES s"
    using d1 by simp
  show ?thesis
  proof (cases r)
    case (Throws x)
    with Some s2 d2 show ?thesis
      by (simp add: processConfig_def Let_def s1_def [symmetric])
  next
    case (Returns u)
    show ?thesis
    proof (cases "devices data")
      case None
      with Some s2 d2 Returns show ?thesis
        by (simp add: processConfig_def Let_def s1_def [symmetric] emit_def)
    next
      case (Some configs)
      let ?s4 = "emit (ClientUnsubscribe (js_keys (SUBSCRIBED_TOPICS s2))) s2
          \<lparr>SUBSCRIBED_TOPICS := [], PUBLISH_TOPICS := []\<rparr>"
      have "DEVICE_INSTANCES ?s4 = DEVICE_INSTANCES s"
        using d2 by (simp add: emit_def)
      then have "fst ` set (DEVICE_INSTANCES s)
          \<subseteq> fst ` set (DEVICE_INSTANCES (snd (processDevices DC configs ?s4)))"
        using processDevices_device_keys [of ?s4 DC configs] by simp
      with \<open>support data = Some supp\<close> Some s2 Returns show ?thesis
        by (simp add: processConfig_def Let_def s1_def [symmetric])
    qed
  qed
qed

section \<open>The claims\<close>






text \<open>
  C10.  The entity topic is the slash-join of \<open>connector\<close>, \<open>device\<close>, the device id
  and the entity's key; an entity without a truthy key (an object with no key or an empty
  one, or a plain string) supplies itself as the last element, which \<open>join\<close> turns
  into its string form.
\<close>

theorem getEntityTopic_segments:
  "(e = EntityObj r \<and> e_key r = Some k \<and> k \<noteq> [] \<longrightarrow>
      getEntityTopic dev e = js_join ''/'' [''connector'', ''device'', d_id dev, k]) \<and>
   (e = EntityObj r \<and> (e_key r = None \<or> e_key r = Some []) \<longrightarrow>
      getEntityTopic dev e = js_join ''/'' [''connector'', ''device'', d_id dev, entity_toString e]) \<and>
   (e = EntityStr x \<longrightarrow>
      getEntityTopic dev e = js_join ''/'' [''connector'', ''device'', d_id dev, x]) \<and>
   js_join ''/'' [''connector'', ''device'', d_id dev, seg]
      = ''connector/device/'' @ d_id dev @ ''/'' @ seg"
  by (auto simp: getEntityTopic_def truthy_key_def entity_toString_def BASE_TOPIC_def
      DEVICE_TOPIC_def)

theorem getEntityTopic_segments_witness:
  "getEntityTopic lamp (EntityObj power_entity) = ''connector/device/lamp1/power'' \<and>
   getEntityTopic lamp (EntityObj (power_entity\<lparr>e_key := None\<rparr>))
     = ''connector/device/lamp1/[object Object]'' \<and>
   getEntityTopic lamp (EntityStr ''power'') = ''connector/device/lamp1/power''"
  using getEntityTopic_segments [of "EntityObj power_entity" power_entity "''power''" lamp
      "''power''" "''power''"]
    getEntityTopic_segments [of "EntityObj (power_entity\<lparr>e_key := None\<rparr>)"
      "power_entity\<lparr>e_key := None\<rparr>" "[]" lamp "[]" "''[object Object]''"]
    getEntityTopic_segments [of "EntityStr ''power''" power_entity "[]" lamp
      "''power''" "''power''"]
  by (simp add: power_entity_def lamp_def entity_toString_def)

text \<open>
  C3.  A \<open>publish\<close> call emits the serialised descriptor (retained) on the entity's topic
  exactly when the topic is not yet in \<open>PUBLISH_TOPICS\<close>, and records the topic there;
  a second call for the same topic emits none, and over any sequence of \<open>publish\<close>
  calls a topic receives at most one descriptor, none if it was recorded before.  The
  state values are published by every call: the state publications of a sequence of
  calls are those of each call in turn, one per pair of the entity's \<open>states\<close>.
\<close>

theorem publish_descriptor_once_states_always:
  "descriptor_events (getEntityTopic dev e) (events_since s (publish s dev e supp)) =
     (if getEntityTopic dev e \<in> set (PUBLISH_TOPICS s) then []
      else [ClientPublish (getEntityTopic dev e) (Stringify e) True]) \<and>
   (getEntityTopic dev2 e2 = getEntityTopic dev e \<longrightarrow>
      descriptor_events (getEntityTopic dev e)
        (events_since (publish s dev e supp) (publish (publish s dev e supp) dev2 e2 supp2)) = []) \<and>
   length (descriptor_events T (events_since s (publish_calls s calls))) \<le> 1 \<and>
   (T \<in> set (PUBLISH_TOPICS s) \<longrightarrow>
      descriptor_events T (events_since s (publish_calls s calls)) = []) \<and>
   state_publications (events_since s (publish_calls s calls)) =
      concat (map (\<lambda>c. state_events (fst c) (fst (snd c))) calls) \<and>
   (entity_states e = Some sts \<and> (k, v) \<in> set sts \<longrightarrow>
      ClientPublish (getEntityTopic dev e @ ''/'' @ k) (StringOf v) True
        \<in> set (events_since s (publish s dev e supp)))"
proof -
  have 1: "descriptor_events (getEntityTopic dev e) (events_since s (publish s dev e supp)) =
     (if getEntityTopic dev e \<in> set (PUBLISH_TOPICS s) then []
      else [ClientPublish (getEntityTopic dev e) (Stringify e) True])"
    by (simp add: descriptor_events_publish)
  have 2: "descriptor_events (getEntityTopic dev e)
        (events_since (publish s dev e supp) (publish (publish s dev e supp) dev2 e2 supp2)) = []"
    if "getEntityTopic dev2 e2 = getEntityTopic dev e"
    using that by (simp add: descriptor_events_publish PUBLISH_TOPICS_publish)
  have 3: "length (descriptor_events T (events_since s (publish_calls s calls))) \<le> 1"
    by (simp add: descriptor_count_calls)
  have 4: "descriptor_events T (events_since s (publish_calls s calls)) = []"
    if "T \<in> set (PUBLISH_TOPICS s)"
    using that descriptor_count_calls [of T s calls] by simp
  have 5: "state_publications (events_since s (publish_calls s calls)) =
      concat (map (\<lambda>c. state_events (fst c) (fst (snd c))) calls)"
    by (rule state_publications_calls)
  have 6: "ClientPublish (getEntityTopic dev e @ ''/'' @ k) (StringOf v) True
        \<in> set (events_since s (publish s dev e supp))"
    if "entity_states e = Some sts" "(k, v) \<in> set sts"
    using state_events_mem [OF that] state_events_in_publish by blast
  from 1 2 3 4 5 6 show ?thesis by blast
qed

theorem publish_descriptor_once_states_always_witness:
  "descriptor_events ''connector/device/lamp1/power''
     (events_since initial (publish initial lamp (EntityObj power_entity) []))
     = [ClientPublish ''connector/device/lamp1/power'' (Stringify (EntityObj power_entity)) True] \<and>
   descriptor_events ''connector/device/lamp1/power''
     (events_since (publish initial lamp (EntityObj power_entity) [])
        (publish (publish initial lamp (EntityObj power_entity) []) lamp_twin
           (EntityObj power_entity) [])) = [] \<and>
   length (descriptor_events ''connector/device/lamp1/power''
     (events_since initial (publish_calls initial
        [(lamp, EntityObj power_entity, []), (lamp_twin, EntityObj power_entity, [])]))) \<le> 1 \<and>
   descriptor_events ''connector/device/lamp1/power''
     (events_since (publish initial lamp (EntityObj power_entity) [])
        (publish_calls (publish initial lamp (EntityObj power_entity) [])
           [(lamp, EntityObj power_entity, [])])) = [] \<and>
   state_publications (events_since initial (publish_calls initial
        [(lamp, EntityObj power_entity, []), (lamp_twin, EntityObj power_entity, [])]))
     = [ClientPublish ''connector/device/lamp1/power/state'' (StringOf (JStr ''ON'')) True,
        ClientPublish ''connector/device/lamp1/power/state'' (StringOf (JStr ''ON'')) True] \<and>
   ClientPublish ''connector/device/lamp1/power/state'' (StringOf (JStr ''ON'')) True
     \<in> set (events_since initial (publish initial lamp (EntityObj power_entity) []))"
proof -
  let ?e = "EntityObj power_entity"
  let ?T = "''connector/device/lamp1/power''"
  let ?calls = "[(lamp, ?e, []), (lamp_twin, ?e, [])] :: (device \<times> entity_arg \<times> string list) list"
  have t: "getEntityTopic lamp ?e = ?T"
    by (simp add: getEntityTopic_def truthy_key_def power_entity_def lamp_def BASE_TOPIC_def
        DEVICE_TOPIC_def)
  have t2: "getEntityTopic lamp_twin ?e = ?T"
    by (simp add: getEntityTopic_def truthy_key_def power_entity_def lamp_def lamp_twin_def
        BASE_TOPIC_def DEVICE_TOPIC_def)
  have p0: "PUBLISH_TOPICS initial = []"
    by (simp add: initial_def)
  have p1: "?T \<in> set (PUBLISH_TOPICS (publish initial lamp ?e []))"
    by (simp add: PUBLISH_TOPICS_publish t)
  have es: "entity_states ?e = Some [(''state'', JStr ''ON'')]"
    by (simp add: entity_states_def power_entity_def)
  have se: "state_events lamp ?e
      = [ClientPublish ''connector/device/lamp1/power/state'' (StringOf (JStr ''ON'')) True]"
    "state_events lamp_twin ?e
      = [ClientPublish ''connector/device/lamp1/power/state'' (StringOf (JStr ''ON'')) True]"
    by (simp_all add: state_events_def es t t2 js_entries_def array_index_def is_digit_def)
  show ?thesis
    using publish_descriptor_once_states_always [of lamp ?e initial "[]" lamp_twin ?e "[]" ?T
        ?calls "[(''state'', JStr ''ON'')]" "''state''" "JStr ''ON''"]
      publish_descriptor_once_states_always [of lamp ?e "publish initial lamp ?e []" "[]"
        lamp_twin ?e "[]" ?T "[(lamp, ?e, [])]" "[(''state'', JStr ''ON'')]" "''state''"
        "JStr ''ON''"]
      t t2 p0 p1 es se
    by simp
qed








text \<open>
  C6.  A message \<open>online\<close> on \<open>homeassistant/status\<close> empties the discovery cache and
  changes nothing else of the state; no other message changes the cache, \<open>processConfig\<close>
  leaves it as it is, and an entity update only appends to it.  So an entity whose topic
  is in the cache is not announced by a \<open>publish\<close> that follows a reconciliation, while
  after the hub's signal its next \<open>publish\<close> (with discovery enabled) announces it.
\<close>

theorem discovery_cache_cleared_by_hub_online_only:
  "on_message DC JSON_parse s ''homeassistant/status'' ''online''
     = (Returns (), s\<lparr>HA_DISCOVERY := []\<rparr>) \<and>
   (\<not> (topic = ''homeassistant/status'' \<and> message = ''online'') \<longrightarrow>
      HA_DISCOVERY (snd (on_message DC JSON_parse s topic message)) = HA_DISCOVERY s) \<and>
   HA_DISCOVERY (snd (processConfig DC data s)) = HA_DISCOVERY s \<and>
   (\<exists>xs. HA_DISCOVERY (processEntity s dev e supp) = HA_DISCOVERY s @ xs) \<and>
   (getEntityTopic dev e \<in> set (HA_DISCOVERY s) \<longrightarrow>
      discovery_events (events_since (snd (processConfig DC data s))
        (publish (snd (processConfig DC data s)) dev e supp)) = []) \<and>
   (''homeassistant'' \<in> set supp \<longrightarrow>
      discovery_events (events_since (s\<lparr>HA_DISCOVERY := []\<rparr>)
        (publish (s\<lparr>HA_DISCOVERY := []\<rparr>) dev e supp))
        = [ClientPublish (discovery_topic dev e)
             (DiscoveryConfig dev e (getEntityTopic dev e)) True])"
proof -
  have 1: "on_message DC JSON_parse s ''homeassistant/status'' ''online''
     = (Returns (), s\<lparr>HA_DISCOVERY := []\<rparr>)"
    by (rule on_message_online)
  have 2: "HA_DISCOVERY (snd (on_message DC JSON_parse s topic message)) = HA_DISCOVERY s"
    if "\<not> (topic = ''homeassistant/status'' \<and> message = ''online'')"
    using that by (rule on_message_HA)
  have 3: "HA_DISCOVERY (snd (processConfig DC data s)) = HA_DISCOVERY s"
    by (rule processConfig_HA)
  have 4: "\<exists>xs. HA_DISCOVERY (processEntity s dev e supp) = HA_DISCOVERY s @ xs"
    by (rule processEntity_HA)
  have 5: "discovery_events (events_since (snd (processConfig DC data s))
        (publish (snd (processConfig DC data s)) dev e supp)) = []"
    if "getEntityTopic dev e \<in> set (HA_DISCOVERY s)"
    using that by (simp add: discovery_events_publish processConfig_HA)
  have 6: "discovery_events (events_since (s\<lparr>HA_DISCOVERY := []\<rparr>)
        (publish (s\<lparr>HA_DISCOVERY := []\<rparr>) dev e supp))
        = [ClientPublish (discovery_topic dev e)
             (DiscoveryConfig dev e (getEntityTopic dev e)) True]"
    if "''homeassistant'' \<in> set supp"
    using that by (simp add: discovery_events_publish)
  from 1 2 3 4 5 6 show ?thesis by blast
qed

theorem discovery_cache_cleared_by_hub_online_only_witness:
  "on_message registry (\<lambda>m. None) running ''homeassistant/status'' ''online''
     = (Returns (), running\<lparr>HA_DISCOVERY := []\<rparr>) \<and>
   HA_DISCOVERY (snd (on_message registry (\<lambda>m. None) running ''homeassistant/status''
       ''offline'')) = [''connector/device/lamp1/power''] \<and>
   HA_DISCOVERY (snd (processConfig registry
       \<lparr>support = Some [''homeassistant''], devices = Some [lamp_cfg]\<rparr> running))
     = [''connector/device/lamp1/power''] \<and>
   discovery_events (events_since
       (snd (processConfig registry
          \<lparr>support = Some [''homeassistant''], devices = Some [lamp_cfg]\<rparr> running))
       (publish (snd (processConfig registry
          \<lparr>support = Some [''homeassistant''], devices = Some [lamp_cfg]\<rparr> running))
          lamp (EntityObj power_entity) [''homeassistant''])) = [] \<and>
   discovery_events (events_since (running\<lparr>HA_DISCOVERY := []\<rparr>)
       (publish (running\<lparr>HA_DISCOVERY := []\<rparr>) lamp (EntityObj power_entity)
          [''homeassistant'']))
     = [ClientPublish ''homeassistant/switch/lamp1_power/config''
          (DiscoveryConfig lamp (EntityObj power_entity) ''connector/device/lamp1/power'') True]"
proof -
  let ?e = "EntityObj power_entity"
  let ?data = "\<lparr>support = Some [''homeassistant''], devices = Some [lamp_cfg]\<rparr>"
  have t: "getEntityTopic lamp ?e = ''connector/device/lamp1/power''"
    by (simp add: getEntityTopic_def truthy_key_def power_entity_def lamp_def BASE_TOPIC_def
        DEVICE_TOPIC_def)
  have d: "discovery_topic lamp ?e = ''homeassistant/switch/lamp1_power/config''"
    by (simp add: discovery_topic_def power_entity_def lamp_def HA_BASE_TOPIC_def)
  have h: "HA_DISCOVERY running = [''connector/device/lamp1/power'']"
    by (simp add: running_def)
  have n: "\<not> (''homeassistant/status'' = ''homeassistant/status'' \<and> ''offline'' = ''online'')"
    by simp
  have m: "''homeassistant'' \<in> set [''homeassistant'']"
    by simp
  have i: "getEntityTopic lamp ?e \<in> set (HA_DISCOVERY running)"
    by (simp add: t h)
  show ?thesis
    using discovery_cache_cleared_by_hub_online_only [of registry "\<lambda>m. None" running
        "''homeassistant/status''" "''offline''" ?data lamp ?e "[''homeassistant'']"]
      t d h n m i
    by simp
qed






end
